theory Spec2Isabelle
  imports
    Complex_Main
    "HOL-Library.Char_ord"
    "HOL-Library.Log_Nat"
    "HOL-Library.List_Lexorder"
    "HOL-Library.Product_Lexorder"
begin

unbundle bit_operations_syntax

section \<open>Text primitives\<close>

text \<open>
  The extractor of \<^verbatim>\<open>round1a/main.py\<close> works on Python strings. A text is modelled
  as a \<^typ>\<open>string\<close> with one \<^typ>\<open>char\<close> per code point, so the model covers the texts
  whose code points are below 256. On these code points the classes below are the ones of
  Python (\<^verbatim>\<open>str.isspace\<close> and \<^verbatim>\<open>\s\<close>, \<^verbatim>\<open>\d\<close>, \<^verbatim>\<open>\w\<close>, \<^verbatim>\<open>str.isupper\<close>,
  \<^verbatim>\<open>str.islower\<close>, \<^verbatim>\<open>str.lower\<close>): next to the ASCII characters, the blanks U+0085
  and U+00A0, the capital letters U+00C0 to U+00DE without the sign U+00D7, the small
  letters U+00DF to U+00FF without the sign U+00F7 and the three small letters U+00AA,
  U+00B5 and U+00BA, and the six numeric characters U+00B2, U+00B3, U+00B9, U+00BC,
  U+00BD and U+00BE, which are word characters.
\<close>

definition isspace :: "char \<Rightarrow> bool" where
  \<comment> \<open>tab, LF, VT, FF, CR, the separators FS GS RS US, the blank, NEL and the
      no-break space\<close>
  "isspace c = (c \<in> set [CHR 0x09, CHR 0x0A, CHR 0x0B, CHR 0x0C, CHR 0x0D,
      CHR 0x1C, CHR 0x1D, CHR 0x1E, CHR 0x1F, CHR 0x20, CHR 0x85, CHR 0xA0])"

definition isdigit :: "char \<Rightarrow> bool" where
  "isdigit c = (CHR ''0'' \<le> c \<and> c \<le> CHR ''9'')"

definition isupper_char :: "char \<Rightarrow> bool" where
  "isupper_char c =
     (CHR ''A'' \<le> c \<and> c \<le> CHR ''Z'' \<or> CHR 0xC0 \<le> c \<and> c \<le> CHR 0xD6
      \<or> CHR 0xD8 \<le> c \<and> c \<le> CHR 0xDE)"

definition islower_char :: "char \<Rightarrow> bool" where
  "islower_char c =
     (CHR ''a'' \<le> c \<and> c \<le> CHR ''z'' \<or> c = CHR 0xAA \<or> c = CHR 0xB5 \<or> c = CHR 0xBA
      \<or> CHR 0xDF \<le> c \<and> c \<le> CHR 0xF6 \<or> CHR 0xF8 \<le> c \<and> c \<le> CHR 0xFF)"

definition isword :: "char \<Rightarrow> bool" where
  "isword c =
     (isdigit c \<or> isupper_char c \<or> islower_char c \<or> c = CHR ''_''
      \<or> c \<in> set [CHR 0xB2, CHR 0xB3, CHR 0xB9, CHR 0xBC, CHR 0xBD, CHR 0xBE])"

definition lower_char :: "char \<Rightarrow> char" where
  "lower_char c = (if isupper_char c then char_of (of_char c + (32::nat)) else c)"

definition lower :: "string \<Rightarrow> string" where
  "lower s = map lower_char s"

definition strip :: "string \<Rightarrow> string" where
  "strip s = rev (dropWhile isspace (rev (dropWhile isspace s)))"

definition startswith :: "string \<Rightarrow> string \<Rightarrow> bool" where
  "startswith s p = (take (length p) s = p)"

text \<open>
  \<^verbatim>\<open>str.isupper\<close>: no lowercase character and at least one uppercase one. No character
  below 256 is a titlecase letter.
\<close>

definition isupper :: "string \<Rightarrow> bool" where
  "isupper s = (list_ex isupper_char s \<and> \<not> list_ex islower_char s)"

text \<open>
  \<^verbatim>\<open>str.istitle\<close>, as CPython's loop: an uppercase character may not follow a cased one,
  a lowercase character must follow a cased one, and some character is cased.
\<close>

fun istitle_loop :: "bool \<Rightarrow> bool \<Rightarrow> string \<Rightarrow> bool" where
  "istitle_loop cased previous_is_cased [] = cased"
| "istitle_loop cased previous_is_cased (c # cs) =
     (if isupper_char c then
        (if previous_is_cased then False else istitle_loop True True cs)
      else if islower_char c then
        (if \<not> previous_is_cased then False else istitle_loop True True cs)
      else istitle_loop cased False cs)"

definition istitle :: "string \<Rightarrow> bool" where
  "istitle s = istitle_loop False False s"

text \<open>\<^verbatim>\<open>str.split()\<close>: the maximal runs of non-whitespace characters.\<close>

fun split_loop :: "string \<Rightarrow> string \<Rightarrow> string list" where
  "split_loop cur [] = (if cur = [] then [] else [rev cur])"
| "split_loop cur (c # cs) =
     (if isspace c then (if cur = [] then split_loop [] cs else rev cur # split_loop [] cs)
      else split_loop (c # cur) cs)"

definition split :: "string \<Rightarrow> string list" where
  "split s = split_loop [] s"

text \<open>\<^verbatim>\<open>str.split(sep)\<close> for a one-character separator: empty pieces are kept.\<close>

fun split_on_loop :: "char \<Rightarrow> string \<Rightarrow> string \<Rightarrow> string list" where
  "split_on_loop sep cur [] = [rev cur]"
| "split_on_loop sep cur (c # cs) =
     (if c = sep then rev cur # split_on_loop sep [] cs else split_on_loop sep (c # cur) cs)"

definition split_on :: "char \<Rightarrow> string \<Rightarrow> string list" where
  "split_on sep s = split_on_loop sep [] s"

section \<open>Regular expressions\<close>

text \<open>
  The patterns of the source use literals, the classes \<^verbatim>\<open>\d \w \s\<close>, the dot, bracket
  sets, concatenation, the greedy \<^verbatim>\<open>*\<close> and \<^verbatim>\<open>+\<close>, and \<^verbatim>\<open>$\<close>. Every pattern starts
  with \<^verbatim>\<open>^\<close> and is used with \<^verbatim>\<open>re.match\<close>, which matches at the start of the
  string only, so the leading anchor is the matcher's starting point.
\<close>

datatype item = Ch char | Rng char char | Dig | Wrd | Spc

datatype regex =
    Eps
  | Any
  | One item
  | Bracket "item list"
  | Cat regex regex
  | Star regex
  | Eol

fun item_ok :: "item \<Rightarrow> char \<Rightarrow> bool" where
  "item_ok (Ch a) c = (c = a)"
| "item_ok (Rng a b) c = (a \<le> c \<and> c \<le> b)"
| "item_ok Dig c = isdigit c"
| "item_ok Wrd c = isword c"
| "item_ok Spc c = isspace c"

definition Plus :: "regex \<Rightarrow> regex" where
  "Plus r = Cat r (Star r)"

text \<open>
  A backtracking matcher: \<open>rmatch r s\<close> lists what is left of \<open>s\<close> after each way of
  matching \<open>r\<close> at its start, in the order the backtracking engine tries them (a greedy
  repetition takes as many rounds as it can first). The dot does not match a newline;
  \<^verbatim>\<open>$\<close> holds at the end and before a final newline.
\<close>

function rmatch :: "regex \<Rightarrow> string \<Rightarrow> string list" where
  "rmatch Eps s = [s]"
| "rmatch Any s = (case s of [] \<Rightarrow> [] | c # t \<Rightarrow> if c \<noteq> CHR 0x0A then [t] else [])"
| "rmatch (One i) s = (case s of [] \<Rightarrow> [] | c # t \<Rightarrow> if item_ok i c then [t] else [])"
| "rmatch (Bracket its) s =
     (case s of [] \<Rightarrow> [] | c # t \<Rightarrow> if list_ex (\<lambda>i. item_ok i c) its then [t] else [])"
| "rmatch (Cat r1 r2) s = concat (map (rmatch r2) (rmatch r1 s))"
| "rmatch (Star r) s =
     concat (map (rmatch (Star r)) (filter (\<lambda>t. length t < length s) (rmatch r s))) @ [s]"
| "rmatch Eol s = (if s = [] \<or> s = [CHR 0x0A] then [s] else [])"
  by pat_completeness auto
termination
  by (relation "inv_image (less_than <*lex*> less_than) (\<lambda>(r, s). (size r, length s))") auto

text \<open>The equation of the repetition unfolds for ever; it is used by hand.\<close>

declare rmatch.simps(6) [simp del]

text \<open>\<^verbatim>\<open>re.match(pattern, s)\<close> as a truth value.\<close>

definition re_match :: "regex \<Rightarrow> string \<Rightarrow> bool" where
  "re_match r s = (rmatch r s \<noteq> [])"

text \<open>
  A pattern \<^verbatim>\<open>^(g)rest\<close>: the match object's \<^verbatim>\<open>group(1)\<close> is what \<open>g\<close> consumed in the
  first way of matching \<open>g\<close> after which \<open>rest\<close> matches.
\<close>

definition match_group1 :: "regex \<Rightarrow> regex \<Rightarrow> string \<Rightarrow> string option" where
  "match_group1 g rest s =
     (case find (\<lambda>t. rmatch rest t \<noteq> []) (rmatch g s) of
        None \<Rightarrow> None
      | Some t \<Rightarrow> Some (take (length s - length t) s))"

section \<open>The heading classifier\<close>

datatype level = H1 | H2 | H3

text \<open>
  \<^verbatim>\<open>self.heading_patterns\<close>, in the order of the source. Each pattern has the shape
  \<^verbatim>\<open>^(g)rest\<close> and is kept as the pair of its first group and what follows it:
  \<^verbatim>\<open>^(\d+\.(?:\d+\.)*)\s*(.+)$\<close>, \<^verbatim>\<open>^([IVX]+\.)\s*(.+)$\<close>, \<^verbatim>\<open>^([A-Z]\.)\s*(.+)$\<close>,
  \<^verbatim>\<open>^([A-Z][A-Z\s]+)$\<close>, \<^verbatim>\<open>^([A-Z][a-z]+(?:\s+[A-Z][a-z]+)*)$\<close>.
\<close>

definition title_tail :: regex where
  \<comment> \<open>\<^verbatim>\<open>\s*(.+)$\<close>\<close>
  "title_tail = Cat (Star (One Spc)) (Cat (Plus Any) Eol)"

definition heading_patterns :: "(regex \<times> regex) list" where
  "heading_patterns =
    [(Cat (Plus (One Dig)) (Cat (One (Ch CHR ''.''))
        (Star (Cat (Plus (One Dig)) (One (Ch CHR ''.''))))),
      title_tail),
     (Cat (Plus (Bracket [Ch CHR ''I'', Ch CHR ''V'', Ch CHR ''X''])) (One (Ch CHR ''.'')),
      title_tail),
     (Cat (Bracket [Rng CHR ''A'' CHR ''Z'']) (One (Ch CHR ''.'')),
      title_tail),
     (Cat (Bracket [Rng CHR ''A'' CHR ''Z'']) (Plus (Bracket [Rng CHR ''A'' CHR ''Z'', Spc])),
      Eol),
     (Cat (Cat (Bracket [Rng CHR ''A'' CHR ''Z'']) (Plus (Bracket [Rng CHR ''a'' CHR ''z''])))
        (Star (Cat (Plus (One Spc))
           (Cat (Bracket [Rng CHR ''A'' CHR ''Z'']) (Plus (Bracket [Rng CHR ''a'' CHR ''z'']))))),
      Eol)]"

text \<open>
  \<^verbatim>\<open>skip_patterns\<close>: \<^verbatim>\<open>^\d+$\<close>, \<^verbatim>\<open>^page \d+\<close>, \<^verbatim>\<open>^figure \d+\<close>, \<^verbatim>\<open>^table \d+\<close>,
  \<^verbatim>\<open>^\w+@\w+\.\w+\<close>, \<^verbatim>\<open>^http\<close>, \<^verbatim>\<open>^\(.*\)$\<close>, \<^verbatim>\<open>^\[.*\]$\<close>.
\<close>

fun lit :: "string \<Rightarrow> regex" where
  \<comment> \<open>the characters of a literal word, one after the other\<close>
  "lit [] = Eps"
| "lit (c # cs) = Cat (One (Ch c)) (lit cs)"

definition skip_patterns :: "regex list" where
  "skip_patterns =
    [Cat (Plus (One Dig)) Eol,
     Cat (lit ''page '') (Plus (One Dig)),
     Cat (lit ''figure '') (Plus (One Dig)),
     Cat (lit ''table '') (Plus (One Dig)),
     Cat (Plus (One Wrd)) (Cat (One (Ch CHR ''@'')) (Cat (Plus (One Wrd))
       (Cat (One (Ch CHR ''.'')) (Plus (One Wrd))))),
     lit ''http'',
     Cat (One (Ch CHR ''('')) (Cat (Star Any) (Cat (One (Ch CHR '')'')) Eol)),
     Cat (One (Ch CHR ''['')) (Cat (Star Any) (Cat (One (Ch CHR '']'')) Eol))]"

text \<open>
  The loop over \<^verbatim>\<open>self.heading_patterns\<close> (lines 78 to 91): the first pattern that
  matches decides, from the dots of its first group, and ends the loop.
\<close>

fun pattern_level :: "(regex \<times> regex) list \<Rightarrow> string \<Rightarrow> level option" where
  "pattern_level [] text = None"
| "pattern_level ((g, rest) # patterns) text =
     (case match_group1 g rest text of
        None \<Rightarrow> pattern_level patterns text
      | Some group1 \<Rightarrow>
          Some (if CHR ''.'' \<in> set group1 then
                  (let dots = count_list group1 CHR ''.''
                   in if dots = 1 then H1 else if dots = 2 then H2 else H3)
                else H1))"

section \<open>Floating-point numbers\<close>

text \<open>
  Font sizes are Python floats. What the source does with them is kept apart from how the
  interpreter computes it: the functions below take the arithmetic as an argument, a record
  of the four operations the source uses. \<open>to_float\<close> is the float of an \<^verbatim>\<open>int\<close> operand
  or of a decimal literal, \<open>fsum\<close> is \<^verbatim>\<open>sum\<close> on a list of floats, \<open>fdiv\<close> is
  \<^verbatim>\<open>/\<close> and \<open>fgt\<close> is \<^verbatim>\<open>>\<close>. The theorems hold for every such record.
\<close>

record 'f arith =
  to_float :: "rat \<Rightarrow> 'f"
  fsum :: "'f list \<Rightarrow> 'f"
  fdiv :: "'f \<Rightarrow> 'f \<Rightarrow> 'f"
  fgt :: "'f \<Rightarrow> 'f \<Rightarrow> bool"

text \<open>
  For the examples, the arithmetic of IEEE 754 binary64 with rounding to nearest, ties to
  even. A float is a finite number, an infinity or a NaN; the two zeros are one value, as
  no result of the source depends on the sign of a zero.
\<close>

datatype pyfloat = Fin rat | PInf | NInf | NaN

definition ilog2 :: "int \<Rightarrow> int \<Rightarrow> int" where
  \<comment> \<open>for \<open>a, b > 0\<close>, the exponent \<open>e\<close> with \<open>2 ^ e \<le> a / b < 2 ^ (e + 1)\<close>\<close>
  "ilog2 a b =
     (let k = bitlen a - bitlen b
      in if (if 0 \<le> k then b * 2 ^ nat k \<le> a else b \<le> a * 2 ^ nat (- k)) then k else k - 1)"

definition round_half_even :: "int \<Rightarrow> int \<Rightarrow> int" where
  \<comment> \<open>for \<open>n \<ge> 0\<close> and \<open>d > 0\<close>, the integer nearest to \<open>n / d\<close>, the even one at a tie\<close>
  "round_half_even n d =
     (let f = n div d; r = n mod d
      in if 2 * r < d then f else if d < 2 * r then f + 1 else if even f then f else f + 1)"

text \<open>
  Rounding a number to binary64: with \<open>e\<close> the exponent of \<open>\<bar>x\<bar>\<close>, not below \<open>-1022\<close>,
  the result is the multiple \<open>m * 2 ^ (e - 52)\<close> nearest to \<open>\<bar>x\<bar>\<close>, so that \<open>m\<close> has at
  most 53 bits, or \<open>m = 2 ^ 53\<close> when the mantissa rounds up to the next power of two. It is
  an infinity when this multiple reaches \<open>2 ^ 1024\<close>, that is when \<open>e \<ge> 1024\<close>, or
  \<open>e = 1023\<close> and \<open>m = 2 ^ 53\<close>.
\<close>

definition round64 :: "rat \<Rightarrow> pyfloat" where
  "round64 x =
     (if x = 0 then Fin 0
      else
        let (a, b) = quotient_of \<bar>x\<bar>;
            e = max (ilog2 a b) (- 1022);
            k = e - 52;
            m = (if 0 \<le> k then round_half_even a (b * 2 ^ nat k)
                 else round_half_even (a * 2 ^ nat (- k)) b);
            y = (if 0 \<le> k then of_int (m * 2 ^ nat k) else of_int m / of_int (2 ^ nat (- k)))
        in if 1024 \<le> e \<or> (e = 1023 \<and> m = 2 ^ 53) then (if 0 < x then PInf else NInf)
           else Fin (if 0 < x then y else - y))"

fun add64 :: "pyfloat \<Rightarrow> pyfloat \<Rightarrow> pyfloat" where
  "add64 (Fin x) (Fin y) = round64 (x + y)"
| "add64 NaN y = NaN"
| "add64 x NaN = NaN"
| "add64 PInf NInf = NaN"
| "add64 NInf PInf = NaN"
| "add64 (Fin x) y = y"
| "add64 x y = x"

text \<open>
  A division by zero raises in Python. The source divides by a length that is not zero
  and by a mean that is greater than zero, so the case is not reached; it is a NaN here.
\<close>

fun div64 :: "pyfloat \<Rightarrow> pyfloat \<Rightarrow> pyfloat" where
  "div64 (Fin x) (Fin y) = (if y = 0 then NaN else round64 (x / y))"
| "div64 NaN y = NaN"
| "div64 x NaN = NaN"
| "div64 (Fin x) y = Fin 0"
| "div64 PInf (Fin y) = (if y = 0 then NaN else if 0 < y then PInf else NInf)"
| "div64 NInf (Fin y) = (if y = 0 then NaN else if 0 < y then NInf else PInf)"
| "div64 x y = NaN"

fun gt64 :: "pyfloat \<Rightarrow> pyfloat \<Rightarrow> bool" where
  "gt64 (Fin x) (Fin y) = (y < x)"
| "gt64 NaN y = False"
| "gt64 x NaN = False"
| "gt64 PInf y = (y \<noteq> PInf)"
| "gt64 NInf y = False"
| "gt64 (Fin x) y = (y = NInf)"

text \<open>
  \<^verbatim>\<open>sum\<close> adds from left to right, starting from zero, as CPython does up to version
  3.11; later versions compensate the rounding of the additions.
\<close>

definition binary64 :: "pyfloat arith" where
  "binary64 = \<lparr>to_float = round64, fsum = foldl add64 (Fin 0), fdiv = div64, fgt = gt64\<rparr>"

section \<open>The levels\<close>

text \<open>
  The font test of lines 94 to 100, reached when no pattern matched. The literals are
  \<^verbatim>\<open>1.5\<close>, \<^verbatim>\<open>1.2\<close> and \<^verbatim>\<open>1.0\<close>.
\<close>

definition style_level :: "'f arith \<Rightarrow> string \<Rightarrow> bool \<Rightarrow> 'f \<Rightarrow> level option" where
  "style_level ops text is_bold font_size_ratio =
     (if fgt ops font_size_ratio (to_float ops (3 / 2))
         \<or> (is_bold \<and> fgt ops font_size_ratio (to_float ops (6 / 5))) then Some H1
      else if fgt ops font_size_ratio (to_float ops (6 / 5)) \<or> is_bold then Some H2
      else if fgt ops font_size_ratio (to_float ops 1) \<and> (is_bold \<or> isupper text) then Some H3
      else None)"

text \<open>
  The level after the pattern loop and the font test (line 101), before the two
  fallbacks on the casing of the text. The mean is compared with the \<^verbatim>\<open>int\<close> 0, and
  the ratio is the \<^verbatim>\<open>int\<close> 1 when the mean is not greater.
\<close>

definition level_after_style ::
  "'f arith \<Rightarrow> string \<Rightarrow> 'f \<Rightarrow> int \<Rightarrow> 'f \<Rightarrow> level option" where
  "level_after_style ops text font_size font_flags avg_font_size =
     (let is_bold = (font_flags AND 2 ^ 4 \<noteq> 0);
          font_size_ratio =
            (if fgt ops avg_font_size (to_float ops 0) then fdiv ops font_size avg_font_size
             else to_float ops 1);
          level = pattern_level heading_patterns text
      in if level = None then style_level ops text is_bold font_size_ratio else level)"

text \<open>\<^verbatim>\<open>is_heading\<close>: the pair of the flag and the level.\<close>

definition is_heading ::
  "'f arith \<Rightarrow> string \<Rightarrow> 'f \<Rightarrow> int \<Rightarrow> 'f \<Rightarrow> bool \<times> level option" where
  "is_heading ops text0 font_size font_flags avg_font_size =
     (let text = strip text0 in
      if length text < 3 \<or> length text > 200 then (False, None)
      else if list_ex (\<lambda>pattern. re_match pattern (lower text)) skip_patterns
        then (False, None)
      else
        let level = level_after_style ops text font_size font_flags avg_font_size;
            level = (if level = None \<and> isupper text \<and> length text > 5 then Some H2 else level);
            level = (if level = None \<and> istitle text \<and> length (split text) \<le> 8
                     then Some H3 else level)
        in (level \<noteq> None, level))"

section \<open>The document, as PyMuPDF hands it over\<close>

text \<open>
  The parser is outside the repository. What \<^verbatim>\<open>extract_title\<close> and
  \<^verbatim>\<open>extract_outline\<close> read from it is kept as data: the title of the metadata, and for
  each page the result of \<^verbatim>\<open>get_text()\<close> and the blocks of \<^verbatim>\<open>get_text("dict")\<close>. A call
  of the parser may raise; a raised exception is a value \<open>Inl\<close>. The type \<open>exn\<close> stands
  for the instances of Python's \<^verbatim>\<open>Exception\<close>, the ones that \<^verbatim>\<open>except Exception\<close> catches.
\<close>

datatype exn = Exception string

record 'f span =
  span_text :: string
  span_size :: 'f
  span_flags :: int

type_synonym 'f line = "'f span list"

text \<open>A block is the list of its lines, or \<open>None\<close> when it has no key \<^verbatim>\<open>"lines"\<close>.\<close>

type_synonym 'f block = "'f line list option"

record 'f page =
  get_text :: "exn + string"
  get_text_dict :: "exn + 'f block list"

record 'f document =
  metadata_title :: "string option"
  doc_pages :: "'f page list"

section \<open>The title\<close>

text \<open>The loop of lines 38 to 42 over \<^verbatim>\<open>lines[:5]\<close>, with its early return.\<close>

fun title_scan :: "string list \<Rightarrow> string option" where
  "title_scan [] = None"
| "title_scan (line # lines) =
     (if length line > 10 \<and> length line < 100 then
        (if \<not> re_match (One Dig) line \<and> \<not> startswith (lower line) ''abstract''
         then Some line else title_scan lines)
      else title_scan lines)"

definition first_page_title :: "'f document \<Rightarrow> exn + string" where
  "first_page_title doc =
     (case doc_pages doc of
        [] \<Rightarrow> Inr ''Untitled Document''
      | page # _ \<Rightarrow>
          (case get_text page of
             Inl e \<Rightarrow> Inl e
           | Inr text \<Rightarrow>
               (let lines = map strip (filter (\<lambda>line. strip line \<noteq> []) (split_on CHR 0x0A text))
                in case title_scan (take 5 lines) of
                     Some line \<Rightarrow> Inr line
                   | None \<Rightarrow> Inr ''Untitled Document'')))"

definition extract_title :: "'f document \<Rightarrow> exn + string" where
  "extract_title doc =
     (case metadata_title doc of
        None \<Rightarrow> first_page_title doc
      | Some t \<Rightarrow> if t \<noteq> [] \<and> strip t \<noteq> [] then Inr (strip t) else first_page_title doc)"

section \<open>The outline\<close>

record 'f text_info =
  ti_text :: string
  ti_font_size :: 'f
  ti_font_flags :: int
  ti_page :: nat

record heading =
  h_level :: level
  h_text :: string
  h_page :: nat

record outline_result =
  r_title :: string
  r_outline :: "heading list"

text \<open>Lines 125 to 136: the spans of one page that are not blank, with the page number.\<close>

definition span_texts :: "nat \<Rightarrow> 'f span \<Rightarrow> 'f text_info list" where
  "span_texts page_num sp =
     (let text = strip (span_text sp)
      in if text \<noteq> [] then
           [\<lparr>ti_text = text, ti_font_size = span_size sp, ti_font_flags = span_flags sp,
             ti_page = page_num + 1\<rparr>]
         else [])"

definition page_texts :: "nat \<Rightarrow> 'f block list \<Rightarrow> 'f text_info list" where
  "page_texts page_num blocks =
     concat (map (\<lambda>block. case block of
                     None \<Rightarrow> []
                   | Some lines \<Rightarrow> concat (map (\<lambda>line. concat (map (span_texts page_num) line)) lines))
                 blocks)"

fun collect_texts :: "nat \<Rightarrow> 'f page list \<Rightarrow> exn + 'f text_info list" where
  "collect_texts page_num [] = Inr []"
| "collect_texts page_num (page # pages) =
     (case get_text_dict page of
        Inl e \<Rightarrow> Inl e
      | Inr blocks \<Rightarrow>
          (case collect_texts (page_num + 1) pages of
             Inl e \<Rightarrow> Inl e
           | Inr all_texts \<Rightarrow> Inr (page_texts page_num blocks @ all_texts)))"

text \<open>
  Lines 139 and 140: the float sum divided by the \<^verbatim>\<open>int\<close> length, or the \<^verbatim>\<open>int\<close> 12.
\<close>

definition avg_font_size :: "'f arith \<Rightarrow> 'f text_info list \<Rightarrow> 'f" where
  "avg_font_size ops all_texts =
     (let font_sizes = map ti_font_size all_texts
      in if font_sizes \<noteq> [] then
           fdiv ops (fsum ops font_sizes) (to_float ops (of_nat (length font_sizes)))
         else to_float ops 12)"

text \<open>Lines 143 to 159: the first loop, with the set \<^verbatim>\<open>seen_headings\<close> of texts.\<close>

fun first_pass ::
  "'f arith \<Rightarrow> 'f \<Rightarrow> string set \<Rightarrow> 'f text_info list \<Rightarrow> heading list" where
  "first_pass ops avg seen_headings [] = []"
| "first_pass ops avg seen_headings (ti # all_texts) =
     (case is_heading ops (ti_text ti) (ti_font_size ti) (ti_font_flags ti) avg of
        (is_head, Some lv) \<Rightarrow>
          if is_head \<and> ti_text ti \<notin> seen_headings then
            \<lparr>h_level = lv, h_text = ti_text ti, h_page = ti_page ti\<rparr>
              # first_pass ops avg (insert (ti_text ti) seen_headings) all_texts
          else first_pass ops avg seen_headings all_texts
      | (is_head, None) \<Rightarrow> first_pass ops avg seen_headings all_texts)"

text \<open>Lines 165 to 171: the second loop, with the set \<^verbatim>\<open>seen\<close> of pairs.\<close>

fun second_pass :: "(level \<times> string) set \<Rightarrow> heading list \<Rightarrow> heading list" where
  "second_pass seen [] = []"
| "second_pass seen (item # outline) =
     (let key = (h_level item, h_text item)
      in if key \<notin> seen then item # second_pass (insert key seen) outline
         else second_pass seen outline)"

text \<open>
  Lines 139 to 171, from the collected texts to \<^verbatim>\<open>unique_outline\<close>. Python's
  \<^verbatim>\<open>list.sort\<close> is stable, as \<^const>\<open>sort_key\<close> is; tuples and strings compare
  lexicographically.
\<close>

definition build_outline :: "'f arith \<Rightarrow> 'f text_info list \<Rightarrow> heading list" where
  "build_outline ops all_texts =
     (let outline = first_pass ops (avg_font_size ops all_texts) {} all_texts;
          outline = sort_key (\<lambda>x. (h_page x, h_text x)) outline
      in second_pass {} outline)"

text \<open>
  The body of the \<^verbatim>\<open>try\<close> and \<^verbatim>\<open>extract_outline\<close> itself. \<^verbatim>\<open>fitz.open\<close> is a
  parameter, since the file system is outside the model; \<^verbatim>\<open>doc.close()\<close> and the
  \<^verbatim>\<open>print\<close> of the handler are taken to return.
\<close>

definition try_body ::
  "'f arith \<Rightarrow> (string \<Rightarrow> exn + 'f document) \<Rightarrow> string \<Rightarrow> exn + outline_result" where
  "try_body ops fitz_open pdf_path =
     (case fitz_open pdf_path of
        Inl e \<Rightarrow> Inl e
      | Inr doc \<Rightarrow>
          (case extract_title doc of
             Inl e \<Rightarrow> Inl e
           | Inr title \<Rightarrow>
               (case collect_texts 0 (doc_pages doc) of
                  Inl e \<Rightarrow> Inl e
                | Inr all_texts \<Rightarrow>
                    Inr \<lparr>r_title = title, r_outline = build_outline ops all_texts\<rparr>)))"

definition extract_outline ::
  "'f arith \<Rightarrow> (string \<Rightarrow> exn + 'f document) \<Rightarrow> string \<Rightarrow> outline_result" where
  "extract_outline ops fitz_open pdf_path =
     (case try_body ops fitz_open pdf_path of
        Inr result \<Rightarrow> result
      | Inl e \<Rightarrow> \<lparr>r_title = ''Error Processing Document'', r_outline = []\<rparr>)"

section \<open>Notions of the specification\<close>

text \<open>
  The title rule in the specification's words: the lines of the first page are the
  trimmed lines that are not empty, and a line qualifies when its length is strictly
  between 10 and 100, it does not start with a digit and it does not start with
  ``abstract'' in any casing.
\<close>

definition first_page_lines :: "string \<Rightarrow> string list" where
  "first_page_lines text = filter (\<lambda>line. line \<noteq> []) (map strip (split_on CHR 0x0A text))"

definition qualifies :: "string \<Rightarrow> bool" where
  "qualifies line =
     (10 < length line \<and> length line < 100
      \<and> (case line of [] \<Rightarrow> True | c # _ \<Rightarrow> \<not> isdigit c)
      \<and> take 8 (lower line) \<noteq> ''abstract'')"

definition resolve_title :: "string list \<Rightarrow> string" where
  "resolve_title lines =
     (case find qualifies (take 5 lines) of
        Some line \<Rightarrow> line
      | None \<Rightarrow> ''Untitled Document'')"

text \<open>The entry that the first loop makes of a text, if the classifier accepts it.\<close>

definition heading_of :: "'f arith \<Rightarrow> 'f \<Rightarrow> 'f text_info \<Rightarrow> heading option" where
  "heading_of ops avg ti =
     (case is_heading ops (ti_text ti) (ti_font_size ti) (ti_font_flags ti) avg of
        (is_head, Some lv) \<Rightarrow>
          if is_head then Some \<lparr>h_level = lv, h_text = ti_text ti, h_page = ti_page ti\<rparr>
          else None
      | (is_head, None) \<Rightarrow> None)"

text \<open>The assembler without its second loop: the sorted list is returned as it is.\<close>

definition build_outline_one_pass :: "'f arith \<Rightarrow> 'f text_info list \<Rightarrow> heading list" where
  "build_outline_one_pass ops all_texts =
     sort_key (\<lambda>x. (h_page x, h_text x))
       (first_pass ops (avg_font_size ops all_texts) {} all_texts)"

text \<open>
  The assignment of line 104 is executed: the gates are passed, no level is set at
  line 101, and the text is uppercase and longer than five characters.
\<close>

definition caps_fallback_fires :: "'f arith \<Rightarrow> string \<Rightarrow> 'f \<Rightarrow> int \<Rightarrow> 'f \<Rightarrow> bool" where
  "caps_fallback_fires ops text0 font_size font_flags avg =
     (let text = strip text0 in
      \<not> (length text < 3 \<or> length text > 200)
      \<and> \<not> list_ex (\<lambda>pattern. re_match pattern (lower text)) skip_patterns
      \<and> level_after_style ops text font_size font_flags avg = None
      \<and> isupper text \<and> length text > 5)"

text \<open>
  The letters \<^verbatim>\<open>A\<close> to \<^verbatim>\<open>Z\<close>, which are the capital letters that the heading patterns
  know, and the texts of the claim on the all-uppercase pattern: capital letters and
  whitespace only, with a capital letter first.
\<close>

definition ascii_upper :: "char \<Rightarrow> bool" where
  "ascii_upper c = (CHR ''A'' \<le> c \<and> c \<le> CHR ''Z'')"

definition capitals_and_spaces :: "string \<Rightarrow> bool" where
  "capitals_and_spaces s =
     (list_all (\<lambda>c. isupper_char c \<or> isspace c) s
      \<and> (case s of [] \<Rightarrow> False | c # _ \<Rightarrow> isupper_char c))"

definition ascii_capitals_and_spaces :: "string \<Rightarrow> bool" where
  "ascii_capitals_and_spaces s =
     (list_all (\<lambda>c. ascii_upper c \<or> isspace c) s
      \<and> (case s of [] \<Rightarrow> False | c # _ \<Rightarrow> ascii_upper c))"

definition skipped :: "string \<Rightarrow> bool" where
  \<comment> \<open>the loop of lines 66 to 68 returns, on a trimmed text\<close>
  "skipped text = list_ex (\<lambda>pattern. re_match pattern (lower text)) skip_patterns"

definition resume_general :: string where
  \<comment> \<open>the text \<^verbatim>\<open>RESUME GENERAL\<close> with its four letters E acute, U+00C9\<close>
  "resume_general =
     ''R'' @ [CHR 0xC9] @ ''SUM'' @ [CHR 0xC9] @ '' G'' @ [CHR 0xC9] @ ''N'' @ [CHR 0xC9] @ ''RAL''"

text \<open>
  A number is a binary64 number when rounding does not change it; the additions of
  \<^verbatim>\<open>sum\<close> are exact when every partial sum is a binary64 number.
\<close>

definition exact64 :: "rat \<Rightarrow> bool" where
  "exact64 x = (round64 x = Fin x)"

fun exact_sums :: "rat \<Rightarrow> rat list \<Rightarrow> bool" where
  "exact_sums acc [] = True"
| "exact_sums acc (x # xs) = (exact64 (acc + x) \<and> exact_sums (acc + x) xs)"

section \<open>The classifier on the examples of the specification\<close>

lemma is_heading_gate:
  "length (strip text) < 3 \<or> length (strip text) > 200 \<or>
     list_ex (\<lambda>pattern. re_match pattern (lower (strip text))) skip_patterns
   \<Longrightarrow> is_heading ops text font_size font_flags avg = (False, None)"
  by (auto simp: is_heading_def Let_def)

lemma is_heading_pattern:
  assumes "strip text = t" and "3 \<le> length t" and "length t \<le> 200"
    and "\<not> list_ex (\<lambda>pattern. re_match pattern (lower t)) skip_patterns"
    and "pattern_level heading_patterns t = Some lv"
  shows "is_heading ops text font_size font_flags avg = (True, Some lv)"
  using assms by (simp add: is_heading_def level_after_style_def Let_def)

lemma heading_1_Intro: "is_heading ops ''1. Intro'' font_size font_flags avg = (True, Some H1)"
proof (rule is_heading_pattern)
  show "strip ''1. Intro'' = ''1. Intro''" by code_simp
  show "\<not> list_ex (\<lambda>pattern. re_match pattern (lower ''1. Intro'')) skip_patterns"
    by code_simp
  show "pattern_level heading_patterns ''1. Intro'' = Some H1" by code_simp
qed simp_all

lemma heading_1_2_Background:
  "is_heading ops ''1.2 Background'' font_size font_flags avg = (True, Some H1)"
proof (rule is_heading_pattern)
  show "strip ''1.2 Background'' = ''1.2 Background''" by code_simp
  show "\<not> list_ex (\<lambda>pattern. re_match pattern (lower ''1.2 Background'')) skip_patterns"
    by code_simp
  show "pattern_level heading_patterns ''1.2 Background'' = Some H1" by code_simp
qed simp_all

lemma heading_1_2_3_Detail:
  "is_heading ops ''1.2.3 Detail'' font_size font_flags avg = (True, Some H2)"
proof (rule is_heading_pattern)
  show "strip ''1.2.3 Detail'' = ''1.2.3 Detail''" by code_simp
  show "\<not> list_ex (\<lambda>pattern. re_match pattern (lower ''1.2.3 Detail'')) skip_patterns"
    by code_simp
  show "pattern_level heading_patterns ''1.2.3 Detail'' = Some H2" by code_simp
qed simp_all

lemma heading_2_3_4_5_Deep:
  "is_heading ops ''2.3.4.5 Deep'' font_size font_flags avg = (True, Some H3)"
proof (rule is_heading_pattern)
  show "strip ''2.3.4.5 Deep'' = ''2.3.4.5 Deep''" by code_simp
  show "\<not> list_ex (\<lambda>pattern. re_match pattern (lower ''2.3.4.5 Deep'')) skip_patterns"
    by code_simp
  show "pattern_level heading_patterns ''2.3.4.5 Deep'' = Some H3" by code_simp
qed simp_all

lemma heading_Methods: "is_heading ops ''Methods'' font_size font_flags avg = (True, Some H1)"
proof (rule is_heading_pattern)
  show "strip ''Methods'' = ''Methods''" by code_simp
  show "\<not> list_ex (\<lambda>pattern. re_match pattern (lower ''Methods'')) skip_patterns"
    by code_simp
  show "pattern_level heading_patterns ''Methods'' = Some H1" by code_simp
qed simp_all

text \<open>
  C1. The numbered-heading law on the four examples, for every point size, flag word and
  mean: the first group of the decimal pattern ends with a dot, so it is \<^verbatim>\<open>1.\<close> in
  \<^verbatim>\<open>1.2 Background\<close> and \<^verbatim>\<open>1.2.\<close> in \<^verbatim>\<open>1.2.3 Detail\<close>. The code gives H1, H1, H2 and
  H3, where the law asks for H1, H2, H3 and H3.
\<close>

theorem numbered_heading_levels_of_the_code:
  "is_heading ops ''1. Intro'' font_size font_flags avg = (True, Some H1)
   \<and> is_heading ops ''1.2 Background'' font_size font_flags avg = (True, Some H1)
   \<and> is_heading ops ''1.2.3 Detail'' font_size font_flags avg = (True, Some H2)
   \<and> is_heading ops ''2.3.4.5 Deep'' font_size font_flags avg = (True, Some H3)"
  by (simp only: heading_1_Intro heading_1_2_Background heading_1_2_3_Detail
      heading_2_3_4_5_Deep)

theorem numbered_heading_levels_witness:
  "is_heading binary64 ''1.2 Background'' (Fin 12) 0 (Fin 12) = (True, Some H1)
   \<and> is_heading binary64 ''1.2.3 Detail'' (Fin 12) 0 (Fin 12) = (True, Some H2)"
  using numbered_heading_levels_of_the_code [of binary64 "Fin 12" 0 "Fin 12"]
  by simp

text \<open>
  C2, as the specification states it, fails: with mean point size 10 the text
  \<^verbatim>\<open>Methods\<close>, not bold, at point size 11 is a heading.
\<close>

theorem style_fallback_counterexample:
  "\<not> (is_heading binary64 ''Methods'' (Fin 16) 0 (Fin 10) = (True, Some H1)
      \<and> is_heading binary64 ''Methods'' (Fin 11) 0 (Fin 10) = (False, None))"
  by (simp add: heading_Methods)

text \<open>
  C2, amended: with mean point size 10 the text \<^verbatim>\<open>Methods\<close>, not bold, is a heading of
  level H1 at point size 16 and at point size 11 alike, since the title-case pattern
  matches it before any font test is made. This holds in every arithmetic.
\<close>

theorem style_fallback_Methods:
  "is_heading ops ''Methods'' (to_float ops 16) 0 (to_float ops 10) = (True, Some H1)
   \<and> is_heading ops ''Methods'' (to_float ops 11) 0 (to_float ops 10) = (True, Some H1)"
  by (simp add: heading_Methods)

theorem style_fallback_witness:
  "is_heading binary64 ''Methods'' (to_float binary64 16) 0 (to_float binary64 10)
     = (True, Some H1)
   \<and> is_heading binary64 ''Methods'' (to_float binary64 11) 0 (to_float binary64 10)
     = (True, Some H1)"
  using style_fallback_Methods [of binary64]
  by simp

text \<open>
  C7. The noise gate: a text whose trimmed, lowercased form matches one of the skip
  patterns is not a heading, whatever the point size, the flags, the mean and the
  arithmetic are; and the seven examples of the specification each match a skip pattern.
\<close>

theorem noise_gate:
  "(list_ex (\<lambda>pattern. re_match pattern (lower (strip text))) skip_patterns
      \<longrightarrow> is_heading ops text font_size font_flags avg = (False, None))
   \<and> list_all (\<lambda>t. list_ex (\<lambda>pattern. re_match pattern (lower (strip t))) skip_patterns)
       [''42'', ''page 3'', ''figure 1'', ''a@b.com'', ''http://x'', ''(note)'', ''[ref]'']"
proof
  show "list_ex (\<lambda>pattern. re_match pattern (lower (strip text))) skip_patterns
      \<longrightarrow> is_heading ops text font_size font_flags avg = (False, None)"
    by (simp add: is_heading_gate)
  show "list_all (\<lambda>t. list_ex (\<lambda>pattern. re_match pattern (lower (strip t))) skip_patterns)
       [''42'', ''page 3'', ''figure 1'', ''a@b.com'', ''http://x'', ''(note)'', ''[ref]'']"
    by code_simp
qed

theorem noise_gate_witness:
  "list_ex (\<lambda>pattern. re_match pattern (lower (strip '' Figure 12: results ''))) skip_patterns
   \<and> is_heading binary64 '' Figure 12: results '' (Fin 30) 16 (Fin 10) = (False, None)
   \<and> list_ex (\<lambda>pattern. re_match pattern
         (lower (strip ([CHR 0xA0] @ ''Jos'' @ [CHR 0xC9] @ ''@mail.com'')))) skip_patterns
   \<and> is_heading binary64 ([CHR 0xA0] @ ''Jos'' @ [CHR 0xC9] @ ''@mail.com'') (Fin 30) 16 (Fin 10)
       = (False, None)"
proof -
  have h: "list_ex (\<lambda>pattern. re_match pattern (lower (strip '' Figure 12: results '')))
      skip_patterns"
    by code_simp
  have k: "list_ex (\<lambda>pattern. re_match pattern
         (lower (strip ([CHR 0xA0] @ ''Jos'' @ [CHR 0xC9] @ ''@mail.com'')))) skip_patterns"
    by code_simp
  from h k
    noise_gate [of "'' Figure 12: results ''" binary64 "Fin 30" 16 "Fin 10"]
    noise_gate [of "[CHR 0xA0] @ ''Jos'' @ [CHR 0xC9] @ ''@mail.com''" binary64 "Fin 30" 16
      "Fin 10"]
  show ?thesis by blast
qed

section \<open>Font statistics\<close>

lemma fsum_exact:
  "exact_sums acc sizes \<Longrightarrow> foldl add64 (Fin acc) (map Fin sizes) = Fin (acc + sum_list sizes)"
  by (induction sizes arbitrary: acc) (simp_all add: exact64_def add.assoc)

lemma round_half_even_pos:
  assumes "0 < d" and "d \<le> n"
  shows "0 < round_half_even n d"
proof -
  from assms have "0 < n div d"
    by (simp add: pos_imp_zdiv_pos_iff)
  then show ?thesis
    by (auto simp: round_half_even_def Let_def)
qed

lemma round64_count:
  assumes "0 < n"
  shows "round64 (of_nat n) \<noteq> Fin 0"
proof -
  let ?a = "int n"
  define k where "k = bitlen ?a - 1"
  from assms have a: "0 < ?a"
    by simp
  then have b: "(2::int) ^ nat k \<le> ?a"
    unfolding k_def using bitlen_bounds by blast
  from a have "bitlen ?a \<noteq> 0"
    by (simp add: bitlen_eq_zero_iff)
  then have "0 < bitlen ?a"
    using bitlen_nonneg [of ?a] by simp
  then have k0: "0 \<le> k"
    by (simp add: k_def)
  have q: "quotient_of \<bar>of_nat n :: rat\<bar> = (?a, 1)"
    using quotient_of_int [of ?a] by simp
  have one: "bitlen 1 = 1"
    by (simp add: bitlen_alt_def)
  have il: "ilog2 ?a 1 = k"
    using b k0 unfolding ilog2_def one k_def by (simp add: Let_def)
  have e: "max k (- 1022) = k"
    using k0 by simp
  define m where "m = (if 0 \<le> k - 52 then round_half_even ?a (1 * 2 ^ nat (k - 52))
                 else round_half_even (?a * 2 ^ nat (- (k - 52))) 1)"
  have m: "0 < m"
  proof (cases "0 \<le> k - 52")
    case True
    then have "(2::int) ^ nat (k - 52) \<le> 2 ^ nat k"
      by (intro power_increasing) simp_all
    from this b have "2 ^ nat (k - 52) \<le> ?a"
      by (rule order_trans)
    then have "0 < round_half_even ?a (2 ^ nat (k - 52))"
      by (intro round_half_even_pos) simp_all
    with True show ?thesis
      by (simp add: m_def)
  next
    case False
    have "1 \<le> ?a" and "(1::int) \<le> 2 ^ nat (- (k - 52))"
      using a by simp_all
    then have "1 * 1 \<le> ?a * 2 ^ nat (- (k - 52))"
      by (intro mult_mono) simp_all
    then have "1 \<le> ?a * 2 ^ nat (- (k - 52))"
      by simp
    then have "0 < round_half_even (?a * 2 ^ nat (- (k - 52))) 1"
      by (intro round_half_even_pos) simp_all
    with False show ?thesis
      by (simp add: m_def)
  qed
  show ?thesis
  proof
    assume z: "round64 (of_nat n) = Fin 0"
    have "m = 0"
    proof (cases "0 \<le> k - 52")
      case True
      with z assms have "m * 2 ^ nat (k - 52) = 0"
        unfolding round64_def q
        by (simp add: Let_def il e m_def split: if_splits)
      then show ?thesis by simp
    next
      case False
      with z assms have "(of_int m :: rat) / of_int (2 ^ nat (- (k - 52))) = 0"
        unfolding round64_def q
        by (simp add: Let_def il e m_def split: if_splits)
      then show ?thesis by simp
    qed
    with m show False by simp
  qed
qed

text \<open>
  C8, as it is stated, fails: for the three point sizes 8, 8 and 8.6 (the float) the
  baseline is the float 8.200000000000001, which is neither the arithmetic mean of the
  three sizes nor the float nearest to it.
\<close>

theorem font_statistics_counterexample:
  "exact64 (4841369599423283 / 562949953421312)
   \<and> avg_font_size binary64
       [\<lparr>ti_text = ''Title'', ti_font_size = Fin 8, ti_font_flags = 16, ti_page = 1\<rparr>,
        \<lparr>ti_text = ''body'', ti_font_size = Fin 8, ti_font_flags = 0, ti_page = 1\<rparr>,
        \<lparr>ti_text = ''note'', ti_font_size = Fin (4841369599423283 / 562949953421312),
          ti_font_flags = 0, ti_page = 1\<rparr>]
     = Fin (4616189618054759 / 562949953421312)
   \<and> (8 + 8 + 4841369599423283 / 562949953421312) / 3
     \<noteq> (4616189618054759 / 562949953421312 :: rat)
   \<and> round64 ((8 + 8 + 4841369599423283 / 562949953421312) / 3)
     \<noteq> Fin (4616189618054759 / 562949953421312)"
  by code_simp

text \<open>
  C8, amended. The baseline of an empty collection is 12. The baseline of a collection
  that is not empty is the float quotient of the float sum of the point sizes by their
  number, in every arithmetic; the number is not zero as a float, so that the division
  does not raise. In binary64 this quotient is the arithmetic mean of the sizes when
  neither an addition nor the division rounds, and the mean up to their rounding
  otherwise.
\<close>

theorem font_statistics:
  "avg_font_size ops [] = to_float ops 12
   \<and> (all_texts \<noteq> [] \<longrightarrow>
        avg_font_size ops all_texts =
          fdiv ops (fsum ops (map ti_font_size all_texts))
            (to_float ops (of_nat (length all_texts)))
        \<and> to_float binary64 (of_nat (length all_texts)) \<noteq> Fin 0)
   \<and> (sizes \<noteq> [] \<and> map ti_font_size texts = map Fin sizes \<and> exact_sums 0 sizes
        \<and> exact64 (of_nat (length sizes)) \<and> exact64 (sum_list sizes / of_nat (length sizes))
      \<longrightarrow> avg_font_size binary64 texts = Fin (sum_list sizes / of_nat (length sizes)))"
proof (intro conjI impI)
  show "avg_font_size ops [] = to_float ops 12"
    by (simp add: avg_font_size_def)
next
  assume "all_texts \<noteq> []"
  then show "avg_font_size ops all_texts =
      fdiv ops (fsum ops (map ti_font_size all_texts)) (to_float ops (of_nat (length all_texts)))"
    by (simp add: avg_font_size_def Let_def)
next
  assume "all_texts \<noteq> []"
  then have "0 < length all_texts"
    by simp
  then have "round64 (of_nat (length all_texts)) \<noteq> Fin 0"
    by (rule round64_count)
  then show "to_float binary64 (of_nat (length all_texts)) \<noteq> Fin 0"
    by (simp add: binary64_def)
next
  assume a: "sizes \<noteq> [] \<and> map ti_font_size texts = map Fin sizes \<and> exact_sums 0 sizes
        \<and> exact64 (of_nat (length sizes)) \<and> exact64 (sum_list sizes / of_nat (length sizes))"
  then have l: "length texts = length sizes"
    using map_eq_imp_length_eq by blast
  with a have ne: "texts \<noteq> []"
    by auto
  from a have s: "foldl add64 (Fin 0) (map Fin sizes) = Fin (sum_list sizes)"
    using fsum_exact [of 0 sizes] by simp
  from a have n: "(of_nat (length sizes) :: rat) \<noteq> 0"
    by simp
  from a l ne s n show "avg_font_size binary64 texts = Fin (sum_list sizes / of_nat (length sizes))"
    by (simp add: avg_font_size_def Let_def binary64_def exact64_def)
qed

theorem font_statistics_witness:
  "avg_font_size binary64
     [\<lparr>ti_text = ''Title'', ti_font_size = Fin 18, ti_font_flags = 16, ti_page = 1\<rparr>,
      \<lparr>ti_text = ''body'', ti_font_size = Fin 9, ti_font_flags = 0, ti_page = 1\<rparr>]
     = Fin (27 / 2)
   \<and> to_float binary64 (of_nat (length
     [\<lparr>ti_text = ''Title'', ti_font_size = Fin 18, ti_font_flags = 16, ti_page = 1\<rparr>,
      \<lparr>ti_text = ''body'', ti_font_size = Fin 9, ti_font_flags = 0, ti_page = 1\<rparr>]))
     \<noteq> Fin 0"
proof -
  let ?xs = "[\<lparr>ti_text = ''Title'', ti_font_size = Fin 18, ti_font_flags = 16, ti_page = 1\<rparr>,
      \<lparr>ti_text = ''body'', ti_font_size = Fin 9, ti_font_flags = 0, ti_page = 1\<rparr>]"
  note t = font_statistics [where ops = binary64 and sizes = "[18, 9]" and all_texts = ?xs
      and texts = ?xs]
  have e: "exact_sums 0 [18, 9] \<and> exact64 (of_nat (length [18, 9 :: rat]))
      \<and> exact64 (sum_list [18, 9] / of_nat (length [18, 9 :: rat]))"
    by code_simp
  have n: "[18, 9 :: rat] \<noteq> []" and m: "map ti_font_size ?xs = map Fin [18, 9]"
    and x: "?xs \<noteq> []"
    by simp_all
  from t e n m have "avg_font_size binary64 ?xs
      = Fin (sum_list [18, 9] / of_nat (length [18, 9 :: rat]))"
    by blast
  moreover have "sum_list [18, 9] / of_nat (length [18, 9 :: rat]) = (27 / 2 :: rat)"
    by simp
  moreover from t x have "to_float binary64 (of_nat (length ?xs)) \<noteq> Fin 0"
    by blast
  ultimately show ?thesis
    by simp
qed

section \<open>Failures of the parser\<close>

lemma strip_Nil: "strip [] = []"
  by (simp add: strip_def)

lemma collect_texts_raises:
  "list_ex (\<lambda>page. isl (get_text_dict page)) pages \<Longrightarrow> isl (collect_texts page_num pages)"
proof (induction pages arbitrary: page_num)
  case Nil
  then show ?case by simp
next
  case (Cons page pages)
  show ?case
  proof (cases "get_text_dict page")
    case (Inl e)
    then show ?thesis by simp
  next
    case (Inr blocks)
    with Cons.prems have "list_ex (\<lambda>page. isl (get_text_dict page)) pages"
      by auto
    then have "isl (collect_texts (page_num + 1) pages)"
      by (rule Cons.IH)
    with Inr show ?thesis
      by (auto split: sum.splits)
  qed
qed

lemma extract_title_raises:
  assumes "\<forall>t. metadata_title doc = Some t \<longrightarrow> strip t = []"
    and "doc_pages doc = page # pages" and "get_text page = Inl e"
  shows "extract_title doc = Inl e"
  using assms by (auto simp: extract_title_def first_page_title_def split: option.splits)

lemma extract_outline_raised:
  "isl (try_body ops fitz_open pdf_path) \<Longrightarrow>
   extract_outline ops fitz_open pdf_path =
     \<lparr>r_title = ''Error Processing Document'', r_outline = []\<rparr>"
  by (auto simp: extract_outline_def split: sum.splits)

text \<open>
  C5. When \<^verbatim>\<open>fitz.open\<close> raises, when the first page's \<^verbatim>\<open>get_text()\<close> raises while
  the title is looked for there, or when \<^verbatim>\<open>get_text("dict")\<close> raises on some page,
  \<^const>\<open>extract_outline\<close> returns the title \<^verbatim>\<open>Error Processing Document\<close> with an empty
  outline. It returns a result, never an exception.
\<close>

theorem error_handling:
  "(fitz_open pdf_path = Inl e \<longrightarrow>
      extract_outline ops fitz_open pdf_path =
        \<lparr>r_title = ''Error Processing Document'', r_outline = []\<rparr>)
   \<and> (fitz_open pdf_path = Inr doc \<and> (\<forall>t. metadata_title doc = Some t \<longrightarrow> strip t = [])
        \<and> doc_pages doc = page # pages \<and> get_text page = Inl e \<longrightarrow>
      extract_outline ops fitz_open pdf_path =
        \<lparr>r_title = ''Error Processing Document'', r_outline = []\<rparr>)
   \<and> (fitz_open pdf_path = Inr doc
        \<and> list_ex (\<lambda>page. isl (get_text_dict page)) (doc_pages doc) \<longrightarrow>
      extract_outline ops fitz_open pdf_path =
        \<lparr>r_title = ''Error Processing Document'', r_outline = []\<rparr>)"
proof (intro conjI impI)
  assume "fitz_open pdf_path = Inl e"
  then have "isl (try_body ops fitz_open pdf_path)"
    by (simp add: try_body_def)
  then show "extract_outline ops fitz_open pdf_path =
        \<lparr>r_title = ''Error Processing Document'', r_outline = []\<rparr>"
    by (rule extract_outline_raised)
next
  assume a: "fitz_open pdf_path = Inr doc \<and> (\<forall>t. metadata_title doc = Some t \<longrightarrow> strip t = [])
        \<and> doc_pages doc = page # pages \<and> get_text page = Inl e"
  then have "extract_title doc = Inl e"
    using extract_title_raises by blast
  with a have "isl (try_body ops fitz_open pdf_path)"
    by (simp add: try_body_def)
  then show "extract_outline ops fitz_open pdf_path =
        \<lparr>r_title = ''Error Processing Document'', r_outline = []\<rparr>"
    by (rule extract_outline_raised)
next
  assume a: "fitz_open pdf_path = Inr doc
        \<and> list_ex (\<lambda>page. isl (get_text_dict page)) (doc_pages doc)"
  then have "isl (collect_texts 0 (doc_pages doc))"
    using collect_texts_raises by blast
  with a have "isl (try_body ops fitz_open pdf_path)"
    by (auto simp: try_body_def split: sum.splits)
  then show "extract_outline ops fitz_open pdf_path =
        \<lparr>r_title = ''Error Processing Document'', r_outline = []\<rparr>"
    by (rule extract_outline_raised)
qed

theorem error_handling_witness:
  "extract_outline binary64 (\<lambda>p. Inl (Exception ''cannot open'')) ''a.pdf'' =
     \<lparr>r_title = ''Error Processing Document'', r_outline = []\<rparr>
   \<and> extract_outline binary64
       (\<lambda>p. Inr \<lparr>metadata_title = Some '' '',
          doc_pages = [\<lparr>get_text = Inl (Exception ''bad page''), get_text_dict = Inr []\<rparr>]\<rparr>)
       ''a.pdf'' =
     \<lparr>r_title = ''Error Processing Document'', r_outline = []\<rparr>
   \<and> extract_outline binary64
       (\<lambda>p. Inr \<lparr>metadata_title = Some ''Report'',
          doc_pages = [\<lparr>get_text = Inr ''x'', get_text_dict = Inr []\<rparr>,
                       \<lparr>get_text = Inr ''y'', get_text_dict = Inl (Exception ''bad page'')\<rparr>]\<rparr>)
       ''a.pdf'' =
     \<lparr>r_title = ''Error Processing Document'', r_outline = []\<rparr>"
proof (intro conjI)
  show "extract_outline binary64 (\<lambda>p. Inl (Exception ''cannot open'')) ''a.pdf'' =
     \<lparr>r_title = ''Error Processing Document'', r_outline = []\<rparr>"
    using error_handling [where ops = binary64
        and fitz_open = "\<lambda>p. Inl (Exception ''cannot open'')" and pdf_path = "''a.pdf''"
        and e = "Exception ''cannot open''"]
    by simp
  have s: "strip '' '' = []"
    by code_simp
  show "extract_outline binary64
       (\<lambda>p. Inr \<lparr>metadata_title = Some '' '',
          doc_pages = [\<lparr>get_text = Inl (Exception ''bad page''), get_text_dict = Inr []\<rparr>]\<rparr>)
       ''a.pdf'' =
     \<lparr>r_title = ''Error Processing Document'', r_outline = []\<rparr>"
    using s error_handling [where ops = binary64
        and fitz_open = "\<lambda>p. Inr \<lparr>metadata_title = Some '' '',
          doc_pages = [\<lparr>get_text = Inl (Exception ''bad page''), get_text_dict = Inr []\<rparr>]\<rparr>"
        and pdf_path = "''a.pdf''" and e = "Exception ''bad page''"
        and doc = "\<lparr>metadata_title = Some '' '',
          doc_pages = [\<lparr>get_text = Inl (Exception ''bad page''), get_text_dict = Inr []\<rparr>]\<rparr>"
        and page = "\<lparr>get_text = Inl (Exception ''bad page''), get_text_dict = Inr []\<rparr>"
        and pages = "[]"]
    by simp
  show "extract_outline binary64
       (\<lambda>p. Inr \<lparr>metadata_title = Some ''Report'',
          doc_pages = [\<lparr>get_text = Inr ''x'', get_text_dict = Inr []\<rparr>,
                       \<lparr>get_text = Inr ''y'', get_text_dict = Inl (Exception ''bad page'')\<rparr>]\<rparr>)
       ''a.pdf'' =
     \<lparr>r_title = ''Error Processing Document'', r_outline = []\<rparr>"
    using error_handling [where ops = binary64
        and fitz_open = "\<lambda>p. Inr \<lparr>metadata_title = Some ''Report'',
          doc_pages = [\<lparr>get_text = Inr ''x'', get_text_dict = Inr []\<rparr>,
                       \<lparr>get_text = Inr ''y'', get_text_dict = Inl (Exception ''bad page'')\<rparr>]\<rparr>"
        and pdf_path = "''a.pdf''"
        and doc = "\<lparr>metadata_title = Some ''Report'',
          doc_pages = [\<lparr>get_text = Inr ''x'', get_text_dict = Inr []\<rparr>,
                       \<lparr>get_text = Inr ''y'', get_text_dict = Inl (Exception ''bad page'')\<rparr>]\<rparr>"]
    by simp
qed

section \<open>The title rule\<close>

lemma first_page_lines_eq:
  "map strip (filter (\<lambda>line. strip line \<noteq> []) xs) = filter (\<lambda>line. line \<noteq> []) (map strip xs)"
  by (induction xs) auto

lemma re_match_digit: "re_match (One Dig) line = (case line of [] \<Rightarrow> False | c # _ \<Rightarrow> isdigit c)"
  by (cases line) (auto simp: re_match_def)

lemma startswith_abstract: "startswith s ''abstract'' = (take 8 s = ''abstract'')"
proof -
  have "length ''abstract'' = 8"
    by simp
  then show ?thesis
    unfolding startswith_def by (simp only:)
qed

lemma qualifies_source:
  "qualifies line =
     (length line > 10 \<and> length line < 100 \<and> \<not> re_match (One Dig) line
      \<and> \<not> startswith (lower line) ''abstract'')"
  unfolding qualifies_def re_match_digit startswith_abstract
  by (cases line) simp_all

lemma title_scan_find:
  "title_scan lines = find qualifies lines"
proof (induction lines)
  case Nil
  show ?case by simp
next
  case (Cons line lines)
  show ?case
  proof (cases "qualifies line")
    case True
    then show ?thesis
      using qualifies_source [of line] by simp
  next
    case False
    then show ?thesis
      using qualifies_source [of line] Cons.IH by auto
  qed
qed

lemma first_page_title_eq:
  "doc_pages doc = page # pages \<Longrightarrow> get_text page = Inr text \<Longrightarrow>
   first_page_title doc = Inr (resolve_title (first_page_lines text))"
  by (simp add: first_page_title_def first_page_lines_def resolve_title_def
      first_page_lines_eq title_scan_find split: option.splits)

text \<open>
  C3. A metadata title that is not blank is returned trimmed, where blank and trimmed
  are meant with all of Python's whitespace, the no-break space too. Otherwise, without a page
  the title is \<^verbatim>\<open>Untitled Document\<close>, and with a first page it is the first of the first
  five trimmed, non-empty lines that qualifies, or \<^verbatim>\<open>Untitled Document\<close> when none does
  (\<^const>\<open>resolve_title\<close>).
\<close>

theorem title_resolution:
  "(metadata_title doc = Some t \<and> strip t \<noteq> [] \<longrightarrow> extract_title doc = Inr (strip t))
   \<and> ((\<forall>t. metadata_title doc = Some t \<longrightarrow> strip t = []) \<longrightarrow>
        (doc_pages doc = [] \<longrightarrow> extract_title doc = Inr ''Untitled Document'')
        \<and> (doc_pages doc = page # pages \<and> get_text page = Inr text \<longrightarrow>
             extract_title doc = Inr (resolve_title (first_page_lines text))))"
proof (intro conjI impI)
  assume "metadata_title doc = Some t \<and> strip t \<noteq> []"
  then show "extract_title doc = Inr (strip t)"
    by (auto simp: extract_title_def strip_Nil)
next
  assume a: "\<forall>t. metadata_title doc = Some t \<longrightarrow> strip t = []"
  then have e: "extract_title doc = first_page_title doc"
    by (auto simp: extract_title_def split: option.splits)
  {
    assume "doc_pages doc = []"
    with e show "extract_title doc = Inr ''Untitled Document''"
      by (simp add: first_page_title_def)
  }
  {
    assume "doc_pages doc = page # pages \<and> get_text page = Inr text"
    with e show "extract_title doc = Inr (resolve_title (first_page_lines text))"
      by (simp add: first_page_title_eq)
  }
qed

theorem title_resolution_witness:
  "extract_title (\<lparr>metadata_title = Some (''  My Paper '' @ [CHR 0xA0]), doc_pages = []\<rparr>
       :: pyfloat document)
     = Inr ''My Paper''
   \<and> extract_title (\<lparr>metadata_title = Some [CHR 0xA0], doc_pages = []\<rparr> :: pyfloat document)
     = Inr ''Untitled Document''
   \<and> extract_title (\<lparr>metadata_title = Some '' '', doc_pages =
         [\<lparr>get_text = Inr (''Abstract'' @ [CHR 0x0A] @ '' A Study of Widgets '' @ [CHR 0x0A]
              @ ''By J. Doe''),
           get_text_dict = Inr []\<rparr>]\<rparr> :: pyfloat document)
     = Inr ''A Study of Widgets''"
proof (intro conjI)
  have s: "strip (''  My Paper '' @ [CHR 0xA0]) = ''My Paper''"
    by code_simp
  show "extract_title (\<lparr>metadata_title = Some (''  My Paper '' @ [CHR 0xA0]), doc_pages = []\<rparr>
       :: pyfloat document)
     = Inr ''My Paper''"
    using s title_resolution
      [of "\<lparr>metadata_title = Some (''  My Paper '' @ [CHR 0xA0]), doc_pages = []\<rparr>
          :: pyfloat document"
        "''  My Paper '' @ [CHR 0xA0]"]
    by simp
  have n: "strip [CHR 0xA0] = []"
    by code_simp
  show "extract_title (\<lparr>metadata_title = Some [CHR 0xA0], doc_pages = []\<rparr> :: pyfloat document)
     = Inr ''Untitled Document''"
    using n title_resolution
      [of "\<lparr>metadata_title = Some [CHR 0xA0], doc_pages = []\<rparr> :: pyfloat document"]
    by simp
  have b: "strip '' '' = []"
    by code_simp
  have r: "resolve_title (first_page_lines (''Abstract'' @ [CHR 0x0A] @ '' A Study of Widgets ''
      @ [CHR 0x0A] @ ''By J. Doe'')) = ''A Study of Widgets''"
    by code_simp
  show "extract_title (\<lparr>metadata_title = Some '' '', doc_pages =
         [\<lparr>get_text = Inr (''Abstract'' @ [CHR 0x0A] @ '' A Study of Widgets '' @ [CHR 0x0A]
              @ ''By J. Doe''),
           get_text_dict = Inr []\<rparr>]\<rparr> :: pyfloat document)
     = Inr ''A Study of Widgets''"
    using b r title_resolution
      [of "\<lparr>metadata_title = Some '' '', doc_pages =
         [\<lparr>get_text = Inr (''Abstract'' @ [CHR 0x0A] @ '' A Study of Widgets '' @ [CHR 0x0A]
              @ ''By J. Doe''),
           get_text_dict = Inr []\<rparr>]\<rparr> :: pyfloat document" _
        "\<lparr>get_text = Inr (''Abstract'' @ [CHR 0x0A] @ '' A Study of Widgets ''
              @ [CHR 0x0A] @ ''By J. Doe''),
           get_text_dict = Inr []\<rparr>"
        "[]"
        "''Abstract'' @ [CHR 0x0A] @ '' A Study of Widgets '' @ [CHR 0x0A]
              @ ''By J. Doe''"]
    by simp
qed

section \<open>The all-uppercase pattern\<close>

lemma upper_not_dot: "ascii_upper c \<Longrightarrow> c \<noteq> CHR ''.''"
  by (auto simp: ascii_upper_def)

lemma space_not_dot: "isspace c \<Longrightarrow> c \<noteq> CHR ''.''"
  by (auto simp: isspace_def)

lemma upper_not_digit: "ascii_upper c \<Longrightarrow> \<not> isdigit c"
proof
  assume "ascii_upper c" and "isdigit c"
  then have "CHR ''A'' \<le> c" and "c \<le> CHR ''9''"
    by (simp_all add: ascii_upper_def isdigit_def)
  then have "CHR ''A'' \<le> CHR ''9''"
    by (rule order_trans)
  then show False by simp
qed

lemma rmatch_rest: "t \<in> set (rmatch r s) \<Longrightarrow> \<exists>p. s = p @ t"
proof (induction r s arbitrary: t rule: rmatch.induct)
  case (5 r1 r2 s)
  from "5.prems" obtain u where u: "u \<in> set (rmatch r1 s)" and t: "t \<in> set (rmatch r2 u)"
    by auto
  from u obtain p where "s = p @ u"
    using "5.IH"(1) by blast
  moreover from u t obtain q where "u = q @ t"
    using "5.IH"(2) by blast
  ultimately have "s = (p @ q) @ t"
    by simp
  then show ?case ..
next
  case (6 r s)
  have "rmatch (Star r) s =
      concat (map (rmatch (Star r)) (filter (\<lambda>t. length t < length s) (rmatch r s))) @ [s]"
    by (rule rmatch.simps)
  with "6.prems" consider "t = s"
    | u where "u \<in> set (rmatch r s)" "length u < length s" "t \<in> set (rmatch (Star r) u)"
    by auto
  then show ?case
  proof cases
    case 1
    then have "s = [] @ t" by simp
    then show ?thesis ..
  next
    case 2
    from 2(1) obtain p where "s = p @ u"
      using "6.IH"(1) by blast
    moreover from 2 obtain q where "u = q @ t"
      using "6.IH"(2) [of u t] by auto
    ultimately have "s = (p @ q) @ t"
      by simp
    then show ?thesis ..
  qed
qed (auto split: list.splits if_splits)


lemma no_dot_no_match:
  assumes "CHR ''.'' \<notin> set s"
  shows "rmatch (Cat r (One (Ch CHR ''.''))) s = []"
proof -
  have "rmatch (One (Ch CHR ''.'')) t = []" if "t \<in> set (rmatch r s)" for t
  proof -
    from that obtain p where "s = p @ t"
      using rmatch_rest by blast
    with assms have "CHR ''.'' \<notin> set t"
      by simp
    then show ?thesis
      by (cases t) auto
  qed
  then show ?thesis
    by simp
qed

lemma star_bracket_all:
  "list_all (\<lambda>c. list_ex (\<lambda>i. item_ok i c) its) s \<Longrightarrow>
   \<exists>ts. rmatch (Star (Bracket its)) s = [] # ts"
proof (induction s)
  case Nil
  show ?case by (simp add: rmatch.simps(6))
next
  case (Cons c s)
  then obtain ts where "rmatch (Star (Bracket its)) s = [] # ts"
    by auto
  with Cons.prems have "rmatch (Star (Bracket its)) (c # s) = [] # (ts @ [c # s])"
    by (simp add: rmatch.simps(6) [of _ "c # s"])
  then show ?case ..
qed

lemma caps_item: "ascii_upper c \<or> isspace c \<Longrightarrow>
  list_ex (\<lambda>i. item_ok i c) [Rng CHR ''A'' CHR ''Z'', Spc]"
  by (auto simp: ascii_upper_def)

lemma caps_group1:
  assumes "ascii_upper c" and "list_all (\<lambda>c. ascii_upper c \<or> isspace c) (d # ds)"
  shows "match_group1
      (Cat (Bracket [Rng CHR ''A'' CHR ''Z'']) (Plus (Bracket [Rng CHR ''A'' CHR ''Z'', Spc])))
      Eol (c # d # ds) = Some (c # d # ds)"
proof -
  from assms(2) have d: "list_ex (\<lambda>i. item_ok i d) [Rng CHR ''A'' CHR ''Z'', Spc]"
    by (intro caps_item) simp
  from assms(2) have "list_all (\<lambda>c. list_ex (\<lambda>i. item_ok i c) [Rng CHR ''A'' CHR ''Z'', Spc]) ds"
    by (auto simp: list_all_iff ascii_upper_def)
  then obtain ts where "rmatch (Star (Bracket [Rng CHR ''A'' CHR ''Z'', Spc])) ds = [] # ts"
    using star_bracket_all by blast
  with d assms(1) have "rmatch
      (Cat (Bracket [Rng CHR ''A'' CHR ''Z'']) (Plus (Bracket [Rng CHR ''A'' CHR ''Z'', Spc])))
      (c # d # ds) = [] # ts"
    by (simp add: Plus_def ascii_upper_def)
  then show ?thesis
    by (simp add: match_group1_def)
qed

lemma match_group1_no: "rmatch g s = [] \<Longrightarrow> match_group1 g rest s = None"
  by (simp add: match_group1_def)

lemma caps_pattern_level:
  assumes "ascii_upper c" and "list_all (\<lambda>c. ascii_upper c \<or> isspace c) (d # ds)"
  shows "pattern_level heading_patterns (c # d # ds) = Some H1"
proof -
  let ?t = "c # d # ds"
  have nodot: "CHR ''.'' \<notin> set ?t"
    using assms upper_not_dot space_not_dot by (auto simp: list_all_iff)
  have "\<not> isdigit c"
    using assms(1) by (rule upper_not_digit)
  then have p1: "match_group1 (Cat (Plus (One Dig)) (Cat (One (Ch CHR ''.''))
        (Star (Cat (Plus (One Dig)) (One (Ch CHR ''.'')))))) title_tail ?t = None"
    by (simp add: match_group1_def Plus_def)
  have p2: "match_group1
      (Cat (Plus (Bracket [Ch CHR ''I'', Ch CHR ''V'', Ch CHR ''X''])) (One (Ch CHR ''.'')))
      title_tail ?t = None"
    using nodot by (intro match_group1_no no_dot_no_match)
  have p3: "match_group1 (Cat (Bracket [Rng CHR ''A'' CHR ''Z'']) (One (Ch CHR ''.'')))
      title_tail ?t = None"
    using nodot by (intro match_group1_no no_dot_no_match)
  have p4: "match_group1
      (Cat (Bracket [Rng CHR ''A'' CHR ''Z'']) (Plus (Bracket [Rng CHR ''A'' CHR ''Z'', Spc])))
      Eol ?t = Some ?t"
    using assms by (rule caps_group1)
  show ?thesis
    unfolding heading_patterns_def pattern_level.simps p1 p2 p3 p4
    using nodot by simp
qed

lemma strip_first: "strip s = c # cs \<Longrightarrow> \<not> isspace c"
proof -
  assume a: "strip s = c # cs"
  let ?u = "dropWhile isspace s"
  have "?u = rev (dropWhile isspace (rev ?u)) @ rev (takeWhile isspace (rev ?u))"
    by (metis rev_append rev_rev_ident takeWhile_dropWhile_id)
  with a have u: "?u = c # cs @ rev (takeWhile isspace (rev ?u))"
    by (simp add: strip_def)
  then obtain w where w: "?u = c # w"
    by blast
  then have "?u \<noteq> []"
    by (metis list.distinct(1))
  then have "\<not> isspace (hd ?u)"
    by (rule hd_dropWhile)
  with w show ?thesis
    by (metis list.sel(1))
qed

lemma two_or_more: "2 \<le> length t \<Longrightarrow> \<exists>c d ds. t = c # d # ds"
  by (cases t; cases "tl t") auto

text \<open>
  C9, as it is stated, fails: \<^verbatim>\<open>RESUME GENERAL\<close> written with E acute is a trimmed text
  of capital letters and a blank, it begins with a letter and passes both gates, and
  with point size 10, no bold flag and mean 10 it is a heading of level H2, by the
  assignment of line 104.
\<close>

theorem caps_pattern_counterexample:
  "strip resume_general = resume_general
   \<and> capitals_and_spaces resume_general
   \<and> 3 \<le> length resume_general \<and> length resume_general \<le> 200
   \<and> \<not> skipped resume_general
   \<and> is_heading binary64 resume_general (Fin 10) 0 (Fin 10) = (True, Some H2)
   \<and> caps_fallback_fires binary64 resume_general (Fin 10) 0 (Fin 10)"
  by code_simp

text \<open>
  C9, amended. A trimmed text of the letters \<^verbatim>\<open>A\<close> to \<^verbatim>\<open>Z\<close> and whitespace only, that
  begins with a letter and passes the length gate and the noise gate, is a heading of
  level H1 by the fourth pattern, whatever the point size, the flags, the mean and the
  arithmetic are. Hence, when the assignment of H2 to an uppercase text longer than five
  characters at line 104 is executed, the trimmed text has a character that is neither
  one of \<^verbatim>\<open>A\<close> to \<^verbatim>\<open>Z\<close> nor whitespace: a digit, a punctuation mark, or a capital
  letter of another alphabet.
\<close>

theorem caps_pattern_wins:
  "(ascii_capitals_and_spaces (strip text)
      \<and> 3 \<le> length (strip text) \<and> length (strip text) \<le> 200
      \<and> \<not> skipped (strip text)
    \<longrightarrow> is_heading ops text font_size font_flags avg = (True, Some H1))
   \<and> (caps_fallback_fires ops text font_size font_flags avg
    \<longrightarrow> list_ex (\<lambda>c. \<not> (ascii_upper c \<or> isspace c)) (strip text))"
proof (intro conjI impI)
  assume a: "ascii_capitals_and_spaces (strip text)
      \<and> 3 \<le> length (strip text) \<and> length (strip text) \<le> 200
      \<and> \<not> skipped (strip text)"
  then obtain c d ds where t: "strip text = c # d # ds"
    using two_or_more [of "strip text"] by auto
  with a have "pattern_level heading_patterns (strip text) = Some H1"
    by (simp add: caps_pattern_level ascii_capitals_and_spaces_def)
  with a show "is_heading ops text font_size font_flags avg = (True, Some H1)"
    by (intro is_heading_pattern [where t = "strip text"]) (simp_all add: skipped_def)
next
  assume f: "caps_fallback_fires ops text font_size font_flags avg"
  show "list_ex (\<lambda>c. \<not> (ascii_upper c \<or> isspace c)) (strip text)"
  proof (rule ccontr)
    assume "\<not> list_ex (\<lambda>c. \<not> (ascii_upper c \<or> isspace c)) (strip text)"
    then have all: "list_all (\<lambda>c. ascii_upper c \<or> isspace c) (strip text)"
      by (simp add: list_all_iff list_ex_iff)
    from f have "2 \<le> length (strip text)"
      by (simp add: caps_fallback_fires_def Let_def)
    then obtain c d ds where t: "strip text = c # d # ds"
      using two_or_more by blast
    then have "\<not> isspace c"
      by (rule strip_first)
    with all t have "ascii_upper c" and "list_all (\<lambda>c. ascii_upper c \<or> isspace c) (d # ds)"
      by simp_all
    then have "pattern_level heading_patterns (c # d # ds) = Some H1"
      by (rule caps_pattern_level)
    with t have "level_after_style ops (strip text) font_size font_flags avg = Some H1"
      by (simp add: level_after_style_def Let_def)
    with f show False
      by (simp add: caps_fallback_fires_def Let_def)
  qed
qed

theorem caps_pattern_wins_witness:
  "is_heading binary64 (''  RESULTS'' @ [CHR 0xA0] @ ''AND DISCUSSION '') (Fin 8) 0 (Fin 12)
     = (True, Some H1)
   \<and> caps_fallback_fires binary64 ''SECTION 2: DATA'' (Fin 10) 0 (Fin 10)
   \<and> list_ex (\<lambda>c. \<not> (ascii_upper c \<or> isspace c)) (strip ''SECTION 2: DATA'')
   \<and> is_heading binary64 ''SECTION 2: DATA'' (Fin 10) 0 (Fin 10) = (True, Some H2)"
proof (intro conjI)
  have "ascii_capitals_and_spaces (strip (''  RESULTS'' @ [CHR 0xA0] @ ''AND DISCUSSION ''))
      \<and> 3 \<le> length (strip (''  RESULTS'' @ [CHR 0xA0] @ ''AND DISCUSSION ''))
      \<and> length (strip (''  RESULTS'' @ [CHR 0xA0] @ ''AND DISCUSSION '')) \<le> 200
      \<and> \<not> skipped (strip (''  RESULTS'' @ [CHR 0xA0] @ ''AND DISCUSSION ''))"
    by code_simp
  then show "is_heading binary64 (''  RESULTS'' @ [CHR 0xA0] @ ''AND DISCUSSION '') (Fin 8) 0
      (Fin 12) = (True, Some H1)"
    using caps_pattern_wins [of "''  RESULTS'' @ [CHR 0xA0] @ ''AND DISCUSSION ''" binary64
        "Fin 8" 0 "Fin 12"]
    by blast
  show f: "caps_fallback_fires binary64 ''SECTION 2: DATA'' (Fin 10) 0 (Fin 10)"
    by code_simp
  then show "list_ex (\<lambda>c. \<not> (ascii_upper c \<or> isspace c)) (strip ''SECTION 2: DATA'')"
    using caps_pattern_wins [of "''SECTION 2: DATA''" binary64 "Fin 10" 0 "Fin 10"]
    by blast
  show "is_heading binary64 ''SECTION 2: DATA'' (Fin 10) 0 (Fin 10) = (True, Some H2)"
    by code_simp
qed

section \<open>The assembled outline\<close>

lemma first_pass_step:
  "first_pass ops avg seen (ti # all_texts) =
     (case heading_of ops avg ti of
        Some h \<Rightarrow>
          if ti_text ti \<notin> seen then h # first_pass ops avg (insert (ti_text ti) seen) all_texts
          else first_pass ops avg seen all_texts
      | None \<Rightarrow> first_pass ops avg seen all_texts)"
  by (auto simp: heading_of_def split: prod.splits option.splits)

lemma heading_of_text: "heading_of ops avg ti = Some h \<Longrightarrow> h_text h = ti_text ti"
  by (auto simp: heading_of_def split: prod.splits option.splits if_splits)

lemma first_pass_not_seen:
  "h \<in> set (first_pass ops avg seen all_texts) \<Longrightarrow> h_text h \<notin> seen"
proof (induction all_texts arbitrary: seen)
  case Nil
  then show ?case by simp
next
  case (Cons ti all_texts)
  show ?case
  proof (cases "heading_of ops avg ti")
    case None
    with Cons show ?thesis
      by (simp add: first_pass_step del: first_pass.simps)
  next
    case (Some h')
    show ?thesis
    proof (cases "ti_text ti \<in> seen")
      case True
      with Some Cons show ?thesis
        by (simp add: first_pass_step del: first_pass.simps)
    next
      case False
      with Some Cons.prems
      have "h = h' \<or> h \<in> set (first_pass ops avg (insert (ti_text ti) seen) all_texts)"
        by (simp add: first_pass_step del: first_pass.simps)
      then show ?thesis
      proof
        assume "h = h'"
        with Some False show ?thesis
          by (simp add: heading_of_text)
      next
        assume "h \<in> set (first_pass ops avg (insert (ti_text ti) seen) all_texts)"
        then have "h_text h \<notin> insert (ti_text ti) seen"
          by (rule Cons.IH)
        then show ?thesis by simp
      qed
    qed
  qed
qed

lemma first_pass_distinct: "distinct (map h_text (first_pass ops avg seen all_texts))"
proof (induction all_texts arbitrary: seen)
  case Nil
  show ?case by simp
next
  case (Cons ti all_texts)
  show ?case
  proof (cases "heading_of ops avg ti")
    case None
    with Cons show ?thesis
      by (simp add: first_pass_step del: first_pass.simps)
  next
    case (Some h')
    have "ti_text ti \<notin> h_text ` set (first_pass ops avg (insert (ti_text ti) seen) all_texts)"
    proof
      assume "ti_text ti \<in> h_text ` set (first_pass ops avg (insert (ti_text ti) seen) all_texts)"
      then obtain x where x: "x \<in> set (first_pass ops avg (insert (ti_text ti) seen) all_texts)"
        and t: "h_text x = ti_text ti"
        by auto
      from x have "h_text x \<notin> insert (ti_text ti) seen"
        by (rule first_pass_not_seen)
      with t show False by simp
    qed
    with Some Cons show ?thesis
      by (simp add: first_pass_step heading_of_text del: first_pass.simps)
  qed
qed

lemma fresh_key: "k item \<notin> set (map k xs) \<Longrightarrow> list_all (\<lambda>h. k h \<noteq> k item) xs"
  by (induction xs) auto

lemma second_pass_keeps:
  "distinct (map (\<lambda>h. (h_level h, h_text h)) outline) \<Longrightarrow>
   list_all (\<lambda>h. (h_level h, h_text h) \<notin> seen) outline \<Longrightarrow>
   second_pass seen outline = outline"
proof (induction outline arbitrary: seen)
  case Nil
  show ?case by simp
next
  case (Cons item outline)
  have "(h_level item, h_text item) \<notin> set (map (\<lambda>h. (h_level h, h_text h)) outline)"
    using Cons.prems(1) by simp
  then have "list_all (\<lambda>h. (h_level h, h_text h) \<noteq> (h_level item, h_text item)) outline"
    by (rule fresh_key [where k = "\<lambda>h. (h_level h, h_text h)"])
  with Cons.prems(2)
  have "list_all (\<lambda>h. (h_level h, h_text h) \<notin> insert (h_level item, h_text item) seen) outline"
    by (simp add: list_all_iff)
  with Cons.prems have "second_pass (insert (h_level item, h_text item) seen) outline = outline"
    by (intro Cons.IH) simp_all
  with Cons.prems show ?case
    by (simp add: Let_def)
qed

lemma distinct_texts_pairs:
  "distinct (map h_text outline) \<Longrightarrow> distinct (map (\<lambda>h. (h_level h, h_text h)) outline)"
  by (induction outline) auto

lemma one_pass_distinct: "distinct (map h_text (build_outline_one_pass ops all_texts))"
proof -
  have "distinct (map h_text (first_pass ops (avg_font_size ops all_texts) {} all_texts))"
    by (rule first_pass_distinct)
  then show ?thesis
    by (simp add: build_outline_one_pass_def distinct_map)
qed

lemma build_outline_eq_one_pass: "build_outline ops all_texts = build_outline_one_pass ops all_texts"
proof -
  have "second_pass {} (build_outline_one_pass ops all_texts) = build_outline_one_pass ops all_texts"
    by (intro second_pass_keeps distinct_texts_pairs one_pass_distinct) (simp add: list_all_iff)
  then show ?thesis
    by (simp add: build_outline_def build_outline_one_pass_def Let_def)
qed

lemma first_pass_first_occurrence:
  assumes "find (\<lambda>ti. ti_text ti = t \<and> heading_of ops avg ti \<noteq> None) all_texts = Some ti"
    and "heading_of ops avg ti = Some h" and "t \<notin> seen"
  shows "filter (\<lambda>x. h_text x = t) (first_pass ops avg seen all_texts) = [h]"
  using assms
proof (induction all_texts arbitrary: seen)
  case Nil
  then show ?case by simp
next
  case (Cons tj all_texts)
  show ?case
  proof (cases "heading_of ops avg tj")
    case None
    with Cons show ?thesis
      by (simp add: first_pass_step del: first_pass.simps)
  next
    case (Some hj)
    then have hj: "h_text hj = ti_text tj"
      by (rule heading_of_text)
    show ?thesis
    proof (cases "ti_text tj = t")
      case True
      with Some Cons.prems have "tj = ti" and "hj = h"
        by auto
      have "filter (\<lambda>x. h_text x = t) (first_pass ops avg (insert t seen) all_texts) = []"
        using first_pass_not_seen [of _ ops avg "insert t seen" all_texts]
        by (auto simp: filter_empty_conv)
      with Some True \<open>hj = h\<close> hj Cons.prems(3) show ?thesis
        by (simp add: first_pass_step del: first_pass.simps)
    next
      case False
      with Cons.prems have f: "find (\<lambda>ti. ti_text ti = t \<and> heading_of ops avg ti \<noteq> None) all_texts = Some ti"
        by simp
      have a: "filter (\<lambda>x. h_text x = t) (first_pass ops avg seen all_texts) = [h]"
        using f Cons.prems(2,3) by (rule Cons.IH)
      have "t \<notin> insert (ti_text tj) seen"
        using False Cons.prems(3) by simp
      with f Cons.prems(2)
      have b: "filter (\<lambda>x. h_text x = t) (first_pass ops avg (insert (ti_text tj) seen) all_texts) = [h]"
        by (rule Cons.IH)
      from Some False hj a b show ?thesis
        by (simp add: first_pass_step del: first_pass.simps)
    qed
  qed
qed

lemma one_pass_first_occurrence:
  assumes "find (\<lambda>ti. ti_text ti = t \<and> heading_of ops (avg_font_size ops all_texts) ti \<noteq> None) all_texts
      = Some ti"
    and "heading_of ops (avg_font_size ops all_texts) ti = Some h"
  shows "filter (\<lambda>x. h_text x = t) (build_outline_one_pass ops all_texts) = [h]"
proof -
  have "filter (\<lambda>x. h_text x = t) (first_pass ops (avg_font_size ops all_texts) {} all_texts) = [h]"
    using assms by (intro first_pass_first_occurrence) simp_all
  then show ?thesis
    by (simp add: build_outline_one_pass_def filter_sort)
qed

lemma one_pass_sorted: "sorted (map (\<lambda>x. (h_page x, h_text x)) (build_outline_one_pass ops all_texts))"
  by (simp add: build_outline_one_pass_def)

lemma extract_outline_cases:
  "r_outline (extract_outline ops fitz_open pdf_path) = [] \<or>
   (\<exists>all_texts. r_outline (extract_outline ops fitz_open pdf_path) = build_outline ops all_texts)"
  by (auto simp: extract_outline_def try_body_def split: sum.splits)

lemma heading_of_accepted:
  "is_heading ops (ti_text ti) (ti_font_size ti) (ti_font_flags ti) avg = (True, Some lv) \<Longrightarrow>
   heading_of ops avg ti = Some \<lparr>h_level = lv, h_text = ti_text ti, h_page = ti_page ti\<rparr>"
  by (simp add: heading_of_def)

text \<open>
  C4. In the outline that \<^const>\<open>build_outline\<close> returns, and so in the outline of every
  result of \<^const>\<open>extract_outline\<close>, no two entries have the same level and text. When
  a text is accepted as a heading somewhere, the outline has exactly one entry with that
  text: the one made of its first accepted occurrence in the order of the collected
  texts, with the level and the page of that occurrence.
\<close>

theorem deduplication:
  "distinct (map (\<lambda>h. (h_level h, h_text h)) (build_outline ops all_texts))
   \<and> (find (\<lambda>ti. ti_text ti = t \<and> heading_of ops (avg_font_size ops all_texts) ti \<noteq> None) all_texts
         = Some ti
       \<and> is_heading ops t (ti_font_size ti) (ti_font_flags ti) (avg_font_size ops all_texts)
         = (True, Some lv)
      \<longrightarrow> filter (\<lambda>h. h_text h = t) (build_outline ops all_texts)
         = [\<lparr>h_level = lv, h_text = t, h_page = ti_page ti\<rparr>])
   \<and> distinct (map (\<lambda>h. (h_level h, h_text h)) (r_outline (extract_outline ops fitz_open pdf_path)))"
proof (intro conjI impI)
  show d: "distinct (map (\<lambda>h. (h_level h, h_text h)) (build_outline ops all_texts))" for all_texts
    unfolding build_outline_eq_one_pass
    by (intro distinct_texts_pairs one_pass_distinct)
  show "distinct (map (\<lambda>h. (h_level h, h_text h))
      (r_outline (extract_outline ops fitz_open pdf_path)))"
    using extract_outline_cases [of ops fitz_open pdf_path] d by auto
next
  assume a: "find (\<lambda>ti. ti_text ti = t \<and> heading_of ops (avg_font_size ops all_texts) ti \<noteq> None)
        all_texts = Some ti
      \<and> is_heading ops t (ti_font_size ti) (ti_font_flags ti) (avg_font_size ops all_texts)
        = (True, Some lv)"
  then have t: "ti_text ti = t"
    by (auto simp: find_Some_iff)
  with a have "heading_of ops (avg_font_size ops all_texts) ti
      = Some \<lparr>h_level = lv, h_text = t, h_page = ti_page ti\<rparr>"
    using heading_of_accepted [where ops = ops and ti = ti and lv = lv] by simp
  with a show "filter (\<lambda>h. h_text h = t) (build_outline ops all_texts)
      = [\<lparr>h_level = lv, h_text = t, h_page = ti_page ti\<rparr>]"
    unfolding build_outline_eq_one_pass
    by (intro one_pass_first_occurrence [where ti = ti]) simp_all
qed

theorem deduplication_witness:
  "filter (\<lambda>h. h_text h = ''results and discussion'')
     (build_outline binary64
       [\<lparr>ti_text = ''results and discussion'', ti_font_size = Fin 22, ti_font_flags = 0, ti_page = 1\<rparr>,
        \<lparr>ti_text = ''plain body text of the page'', ti_font_size = Fin 10, ti_font_flags = 0,
          ti_page = 1\<rparr>,
        \<lparr>ti_text = ''results and discussion'', ti_font_size = Fin 10, ti_font_flags = 16,
          ti_page = 2\<rparr>])
   = [\<lparr>h_level = H1, h_text = ''results and discussion'', h_page = 1\<rparr>]"
proof -
  let ?a = "\<lparr>ti_text = ''results and discussion'', ti_font_size = Fin 22, ti_font_flags = 0,
      ti_page = 1\<rparr>"
  let ?xs = "[?a,
        \<lparr>ti_text = ''plain body text of the page'', ti_font_size = Fin 10, ti_font_flags = 0,
          ti_page = 1\<rparr>,
        \<lparr>ti_text = ''results and discussion'', ti_font_size = Fin 10, ti_font_flags = 16,
          ti_page = 2\<rparr>]"
  have f: "find (\<lambda>ti. ti_text ti = ''results and discussion''
        \<and> heading_of binary64 (avg_font_size binary64 ?xs) ti \<noteq> None) ?xs = Some ?a"
    by code_simp
  have h: "is_heading binary64 ''results and discussion'' (ti_font_size ?a) (ti_font_flags ?a)
      (avg_font_size binary64 ?xs) = (True, Some H1)"
    by code_simp
  from f h deduplication [where ops = binary64 and all_texts = ?xs
      and t = "''results and discussion''" and ti = ?a and lv = H1] show ?thesis
    by simp
qed

text \<open>
  C6. The outline is sorted by page number, and by text among the entries of one page;
  two headings of one page come out in the order of their texts, not in the order of
  the document.
\<close>

theorem outline_ordering:
  "sorted (map (\<lambda>h. (h_page h, h_text h)) (build_outline ops all_texts))
   \<and> sorted (map (\<lambda>h. (h_page h, h_text h)) (r_outline (extract_outline ops fitz_open pdf_path)))
   \<and> build_outline binary64
       [\<lparr>ti_text = ''Zebra Section'', ti_font_size = Fin 14, ti_font_flags = 0, ti_page = 1\<rparr>,
        \<lparr>ti_text = ''Alpha Section'', ti_font_size = Fin 14, ti_font_flags = 0, ti_page = 1\<rparr>]
     = [\<lparr>h_level = H1, h_text = ''Alpha Section'', h_page = 1\<rparr>,
        \<lparr>h_level = H1, h_text = ''Zebra Section'', h_page = 1\<rparr>]"
proof (intro conjI)
  show s: "sorted (map (\<lambda>h. (h_page h, h_text h)) (build_outline ops all_texts))" for all_texts
    unfolding build_outline_eq_one_pass by (rule one_pass_sorted)
  show "sorted (map (\<lambda>h. (h_page h, h_text h)) (r_outline (extract_outline ops fitz_open pdf_path)))"
    using extract_outline_cases [of ops fitz_open pdf_path] s by auto
  show "build_outline binary64
       [\<lparr>ti_text = ''Zebra Section'', ti_font_size = Fin 14, ti_font_flags = 0, ti_page = 1\<rparr>,
        \<lparr>ti_text = ''Alpha Section'', ti_font_size = Fin 14, ti_font_flags = 0, ti_page = 1\<rparr>]
     = [\<lparr>h_level = H1, h_text = ''Alpha Section'', h_page = 1\<rparr>,
        \<lparr>h_level = H1, h_text = ''Zebra Section'', h_page = 1\<rparr>]"
    by code_simp
qed

theorem outline_ordering_witness:
  "sorted (map (\<lambda>h. (h_page h, h_text h))
     (build_outline binary64
       [\<lparr>ti_text = ''Zebra Section'', ti_font_size = Fin 14, ti_font_flags = 0, ti_page = 2\<rparr>,
        \<lparr>ti_text = ''Alpha Section'', ti_font_size = Fin 14, ti_font_flags = 0, ti_page = 2\<rparr>]))"
  using outline_ordering
    [where ops = binary64 and all_texts = "[\<lparr>ti_text = ''Zebra Section'', ti_font_size = Fin 14, ti_font_flags = 0, ti_page = 2\<rparr>,
        \<lparr>ti_text = ''Alpha Section'', ti_font_size = Fin 14, ti_font_flags = 0, ti_page = 2\<rparr>]"]
  by blast

text \<open>
  C10. The second loop removes nothing: the texts that the first loop keeps are pairwise
  distinct, so the sorted list passes the second loop unchanged, and the assembler
  equals the one without the second loop.
\<close>

theorem second_pass_redundant:
  "second_pass {} (sort_key (\<lambda>x. (h_page x, h_text x))
       (first_pass ops (avg_font_size ops all_texts) {} all_texts))
     = sort_key (\<lambda>x. (h_page x, h_text x)) (first_pass ops (avg_font_size ops all_texts) {} all_texts)
   \<and> distinct (map h_text (first_pass ops (avg_font_size ops all_texts) {} all_texts))
   \<and> build_outline ops all_texts = build_outline_one_pass ops all_texts"
proof (intro conjI)
  show "second_pass {} (sort_key (\<lambda>x. (h_page x, h_text x))
       (first_pass ops (avg_font_size ops all_texts) {} all_texts))
     = sort_key (\<lambda>x. (h_page x, h_text x)) (first_pass ops (avg_font_size ops all_texts) {} all_texts)"
    using build_outline_eq_one_pass [of ops all_texts]
    by (simp add: build_outline_def build_outline_one_pass_def Let_def)
  show "distinct (map h_text (first_pass ops (avg_font_size ops all_texts) {} all_texts))"
    by (rule first_pass_distinct)
  show "build_outline ops all_texts = build_outline_one_pass ops all_texts"
    by (rule build_outline_eq_one_pass)
qed

theorem second_pass_redundant_witness:
  "build_outline binary64
     [\<lparr>ti_text = ''1. Overview'', ti_font_size = Fin 14, ti_font_flags = 0, ti_page = 1\<rparr>,
      \<lparr>ti_text = ''1. Overview'', ti_font_size = Fin 14, ti_font_flags = 0, ti_page = 2\<rparr>]
   = build_outline_one_pass binary64
     [\<lparr>ti_text = ''1. Overview'', ti_font_size = Fin 14, ti_font_flags = 0, ti_page = 1\<rparr>,
      \<lparr>ti_text = ''1. Overview'', ti_font_size = Fin 14, ti_font_flags = 0, ti_page = 2\<rparr>]"
  using second_pass_redundant
    [where ops = binary64 and all_texts = "[\<lparr>ti_text = ''1. Overview'', ti_font_size = Fin 14, ti_font_flags = 0, ti_page = 1\<rparr>,
      \<lparr>ti_text = ''1. Overview'', ti_font_size = Fin 14, ti_font_flags = 0, ti_page = 2\<rparr>]"]
  by blast

end
